theory Spec2Isabelle
  imports Main
begin

section \<open>Strings and arrays of the host language\<close>

text \<open>
  Package names, versions and messages are \<^typ>\<open>string\<close>s, lists of 8-bit characters.
  \<open>String.prototype.toLowerCase\<close> is modelled on the ASCII range, where it maps \<open>A\<close>..\<open>Z\<close>
  (codes 65..90) to \<open>a\<close>..\<open>z\<close>; every other character is left alone.
\<close>

definition toLowerChar :: "char \<Rightarrow> char" where
  "toLowerChar c =
     (let n = (of_char c :: nat) in if 65 \<le> n \<and> n \<le> 90 then char_of (n + 32) else c)"

definition toLowerCase :: "string \<Rightarrow> string" where
  "toLowerCase s = map toLowerChar s"

text \<open>\<open>s.startsWith(p)\<close>: \<open>p\<close> is an initial segment of \<open>s\<close>.\<close>

fun startsWith :: "string \<Rightarrow> string \<Rightarrow> bool" where
  "startsWith s [] = True"
| "startsWith [] (p # ps) = False"
| "startsWith (c # cs) (p # ps) = (c = p \<and> startsWith cs ps)"

text \<open>\<open>s.includes(sub)\<close> on strings: \<open>sub\<close> occurs at some position of \<open>s\<close>.\<close>

fun includes_str :: "string \<Rightarrow> string \<Rightarrow> bool" where
  "includes_str [] sub = (sub = [])"
| "includes_str (c # cs) sub = (startsWith (c # cs) sub \<or> includes_str cs sub)"

text \<open>\<open>xs.includes(x)\<close> on an array of strings.\<close>

definition includes_arr :: "string list \<Rightarrow> string \<Rightarrow> bool" where
  "includes_arr xs x = (x \<in> set xs)"

text \<open>\<open>String(i)\<close> for an array index: its decimal digits.\<close>

fun digits :: "nat \<Rightarrow> string" where
  "digits n =
     (let last_digit = ''0123456789'' ! (n mod 10)
      in if n < 10 then [last_digit] else digits (n div 10) @ [last_digit])"

section \<open>Parsed JSON values\<close>

text \<open>
  The value \<open>JSON.parse\<close> returns. An object holds its own properties in the order they
  were created, which for a parsed text is the order its members are declared in; its keys
  are distinct. The payload of a number is never inspected by the program.
\<close>

datatype json =
    JNull
  | JBool bool
  | JNum int
  | JStr string
  | JArr "json list"
  | JObj "(string \<times> json) list"

text \<open>
  What the program needs from its host: the file system behind \<open>fs.readFileSync\<close>, the
  parser \<open>JSON.parse\<close>, and the messages of the two \<open>TypeError\<close>s the engine raises
  (destructuring \<open>null\<close>, and \<open>Object.entries(null)\<close>). A failing call returns \<open>Inl\<close> of
  the thrown error's \<open>message\<close>.
\<close>

record runtime =
  readFileSync :: "string \<Rightarrow> string + string"
  JSON_parse :: "string \<Rightarrow> string + json"
  destructure_null_message :: string
  entries_null_message :: string

text \<open>\<open>o[key]\<close> for a parsed value \<open>o\<close> that is not \<open>null\<close>; \<open>None\<close> is \<open>undefined\<close>.\<close>

fun getProp :: "json \<Rightarrow> string \<Rightarrow> json option" where
  "getProp (JObj kvs) key = map_of kvs key"
| "getProp v key = None"

text \<open>A destructuring default \<open>= {}\<close>: it replaces \<open>undefined\<close> only.\<close>

definition orEmptyObject :: "json option \<Rightarrow> json" where
  "orEmptyObject v = (case v of None \<Rightarrow> JObj [] | Some x \<Rightarrow> x)"

text \<open>
  \<open>const { dependencies = {}, peerDependencies = {}, devDependencies = {} } = packageJson\<close>.
  Destructuring \<open>null\<close> throws.
\<close>

definition destructure :: "runtime \<Rightarrow> json \<Rightarrow> string + (json \<times> json \<times> json)" where
  "destructure rt packageJson =
     (if packageJson = JNull then Inl (destructure_null_message rt)
      else Inr (orEmptyObject (getProp packageJson ''dependencies''),
                orEmptyObject (getProp packageJson ''peerDependencies''),
                orEmptyObject (getProp packageJson ''devDependencies'')))"

definition indexed :: "json list \<Rightarrow> (string \<times> json) list" where
  "indexed vs = zip (map digits [0 ..< length vs]) vs"

text \<open>
  A property key is an array index when it is the decimal form, without leading zeros, of
  an integer from \<open>0\<close> to \<open>4294967294\<close> (two to the power 32, less two); \<open>indexValue\<close> is
  that integer.
\<close>

definition isDigit :: "char \<Rightarrow> bool" where
  "isDigit c = (48 \<le> (of_char c :: int) \<and> (of_char c :: int) \<le> 57)"

definition indexValue :: "string \<Rightarrow> int" where
  "indexValue key = foldl (\<lambda>n c. 10 * n + (of_char c - 48)) 0 key"

definition isArrayIndex :: "string \<Rightarrow> bool" where
  "isArrayIndex key =
     (case key of
        [] \<Rightarrow> False
      | c # cs \<Rightarrow>
          list_all isDigit key \<and> (cs = [] \<or> c \<noteq> CHR ''0'') \<and> indexValue key < 4294967295)"

text \<open>
  The order in which the own properties of an object are enumerated: the properties whose
  key is an array index come first, by ascending index, and the others follow in the order
  they were created.
\<close>

definition ownEntries :: "(string \<times> json) list \<Rightarrow> (string \<times> json) list" where
  "ownEntries kvs =
     sort_key (\<lambda>(key, v). indexValue key) (filter (\<lambda>(key, v). isArrayIndex key) kvs) @
     filter (\<lambda>(key, v). \<not> isArrayIndex key) kvs"

text \<open>
  \<open>Object.entries(v)\<close>: the own enumerable properties of \<open>v\<close>. It throws on \<open>null\<close>, a
  number or a boolean has none, a string and an array have their indices.
\<close>

fun Object_entries :: "runtime \<Rightarrow> json \<Rightarrow> string + (string \<times> json) list" where
  "Object_entries rt JNull = Inl (entries_null_message rt)"
| "Object_entries rt (JBool b) = Inr []"
| "Object_entries rt (JNum n) = Inr []"
| "Object_entries rt (JStr s) = Inr (indexed (map (\<lambda>c. JStr [c]) s))"
| "Object_entries rt (JArr vs) = Inr (indexed vs)"
| "Object_entries rt (JObj kvs) = Inr (ownEntries kvs)"

section \<open>Options\<close>

text \<open>
  \<open>package_type\<close> is whatever string the environment supplied (the cast in \<open>main\<close> checks
  nothing). The two optional arrays are \<open>None\<close> when absent.
\<close>

record CheckOptions =
  package_type :: string
  peer_deps_should_be_asterisk :: bool
  additional_internal_modules :: "string list option"
  ignore_packages :: "string list option"

definition INTERNAL_PACKAGE_LIST :: "string list" where
  "INTERNAL_PACKAGE_LIST = [''schematic-symbols'']"

definition defaultOptions :: CheckOptions where
  "defaultOptions =
     \<lparr> package_type = ''internal_lib'',
       peer_deps_should_be_asterisk = True,
       additional_internal_modules = Some [],
       ignore_packages = Some [] \<rparr>"

section \<open>isInternalModule\<close>

text \<open>The parameter default \<open>additionalModules = []\<close> applies when the argument is absent.\<close>

definition orEmptyArray :: "string list option \<Rightarrow> string list" where
  "orEmptyArray xs = (case xs of None \<Rightarrow> [] | Some l \<Rightarrow> l)"

definition isInternalModule :: "string \<Rightarrow> string list option \<Rightarrow> bool" where
  "isInternalModule packageName additionalModules =
     (if includes_arr INTERNAL_PACKAGE_LIST packageName then True
      else if startsWith packageName ''@tscircuit/'' then True
      else if includes_str (toLowerCase packageName) ''circuit'' then True
      else if includes_arr (orEmptyArray additionalModules) packageName then True
      else False)"

text \<open>The same function with the prefix check taken out, for comparison.\<close>

definition isInternalModule_without_prefix_check :: "string \<Rightarrow> string list option \<Rightarrow> bool" where
  "isInternalModule_without_prefix_check packageName additionalModules =
     (if includes_arr INTERNAL_PACKAGE_LIST packageName then True
      else if includes_str (toLowerCase packageName) ''circuit'' then True
      else if includes_arr (orEmptyArray additionalModules) packageName then True
      else False)"

section \<open>checkDependencies\<close>

record Result =
  success :: bool
  errors :: "string list"

text \<open>\<open>options.ignore_packages?.includes(dep)\<close>: \<open>undefined\<close>, hence falsy, when the array is absent.\<close>

definition ignored :: "CheckOptions \<Rightarrow> string \<Rightarrow> bool" where
  "ignored options dep =
     (case ignore_packages options of None \<Rightarrow> False | Some l \<Rightarrow> includes_arr l dep)"

text \<open>The four messages.\<close>

definition msg_internal_dependency :: "string \<Rightarrow> string" where
  "msg_internal_dependency dep =
     ''Internal module \"'' @ dep @
     ''\" found in dependencies. It should be in peerDependencies or devDependencies.''"

definition msg_peer_asterisk :: "string \<Rightarrow> string" where
  "msg_peer_asterisk dep =
     ''Internal module \"'' @ dep @ ''\" in peerDependencies should use \"*\" as version.''"

definition msg_bundled_dependency :: "string \<Rightarrow> string" where
  "msg_bundled_dependency dep =
     ''Internal module \"'' @ dep @
     ''\" found in dependencies. Bundled libs cannot have internal dependencies.''"

definition msg_bundled_peer :: "string \<Rightarrow> string" where
  "msg_bundled_peer dep =
     ''Internal module \"'' @ dep @
     ''\" found in peerDependencies. Bundled libs cannot have internal peer dependencies.''"

definition msg_read_or_parse :: "string \<Rightarrow> string" where
  "msg_read_or_parse message = ''Error reading or parsing package.json: '' @ message"

text \<open>\<open>result.success = false; result.errors.push(m)\<close>.\<close>

definition fail_with :: "string \<Rightarrow> Result \<Rightarrow> Result" where
  "fail_with m result = result\<lparr> success := False, errors := errors result @ [m] \<rparr>"

text \<open>The bodies of the four \<open>for\<close> loops, each on one entry \<open>[dep, version]\<close>.\<close>

definition internal_dependency_step :: "CheckOptions \<Rightarrow> string \<times> json \<Rightarrow> Result \<Rightarrow> Result" where
  "internal_dependency_step options entry result =
     (case entry of (dep, version) \<Rightarrow>
        if isInternalModule dep (additional_internal_modules options) \<and> \<not> ignored options dep
        then fail_with (msg_internal_dependency dep) result
        else result)"

definition peer_asterisk_step :: "CheckOptions \<Rightarrow> string \<times> json \<Rightarrow> Result \<Rightarrow> Result" where
  "peer_asterisk_step options entry result =
     (case entry of (dep, version) \<Rightarrow>
        if isInternalModule dep (additional_internal_modules options) \<and>
           version \<noteq> JStr ''*'' \<and> \<not> ignored options dep
        then fail_with (msg_peer_asterisk dep) result
        else result)"

definition bundled_dependency_step :: "CheckOptions \<Rightarrow> string \<times> json \<Rightarrow> Result \<Rightarrow> Result" where
  "bundled_dependency_step options entry result =
     (case entry of (dep, version) \<Rightarrow>
        if isInternalModule dep (additional_internal_modules options) \<and> \<not> ignored options dep
        then fail_with (msg_bundled_dependency dep) result
        else result)"

definition bundled_peer_step :: "CheckOptions \<Rightarrow> string \<times> json \<Rightarrow> Result \<Rightarrow> Result" where
  "bundled_peer_step options entry result =
     (case entry of (dep, version) \<Rightarrow>
        if isInternalModule dep (additional_internal_modules options) \<and> \<not> ignored options dep
        then fail_with (msg_bundled_peer dep) result
        else result)"

text \<open>The iterations of a \<open>for\<close> loop over the entries, from the state \<open>result\<close>.\<close>

fun run_loop :: "(string \<times> json \<Rightarrow> Result \<Rightarrow> Result) \<Rightarrow> (string \<times> json) list \<Rightarrow> Result \<Rightarrow> Result" where
  "run_loop body [] result = result"
| "run_loop body (entry # rest) result = run_loop body rest (body entry result)"

text \<open>
  \<open>for (const [dep, version] of Object.entries(obj)) body\<close>, started in state \<open>result\<close>.
  The outcome is the state reached and, when \<open>Object.entries\<close> threw, the message thrown.
\<close>

definition for_entries ::
  "runtime \<Rightarrow> json \<Rightarrow> (string \<times> json \<Rightarrow> Result \<Rightarrow> Result) \<Rightarrow> Result \<Rightarrow> Result \<times> string option" where
  "for_entries rt obj body result =
     (case Object_entries rt obj of
        Inl message \<Rightarrow> (result, Some message)
      | Inr entries \<Rightarrow> (run_loop body entries result, None))"

text \<open>
  The \<open>try\<close> block. It returns the state of \<open>result\<close> when the block ends and the message
  of the error that ended it, if one was thrown.
\<close>

definition try_block :: "runtime \<Rightarrow> string \<Rightarrow> CheckOptions \<Rightarrow> Result \<Rightarrow> Result \<times> string option" where
  "try_block rt packageJsonPath options result =
     (case readFileSync rt packageJsonPath of
        Inl message \<Rightarrow> (result, Some message)
      | Inr packageJsonContent \<Rightarrow>
     (case JSON_parse rt packageJsonContent of
        Inl message \<Rightarrow> (result, Some message)
      | Inr packageJson \<Rightarrow>
     (case destructure rt packageJson of
        Inl message \<Rightarrow> (result, Some message)
      | Inr (dependencies, peerDependencies, devDependencies) \<Rightarrow>
          if package_type options = ''internal_lib'' then
            (case for_entries rt dependencies (internal_dependency_step options) result of
               (result1, Some message) \<Rightarrow> (result1, Some message)
             | (result1, None) \<Rightarrow>
                 if peer_deps_should_be_asterisk options
                 then for_entries rt peerDependencies (peer_asterisk_step options) result1
                 else (result1, None))
          else if package_type options = ''bundled_lib'' then
            (case for_entries rt dependencies (bundled_dependency_step options) result of
               (result1, Some message) \<Rightarrow> (result1, Some message)
             | (result1, None) \<Rightarrow>
                 for_entries rt peerDependencies (bundled_peer_step options) result1)
          else (result, None))))"

text \<open>
  The function: \<open>result\<close> starts as \<open>{ success: true, errors: [] }\<close>, the \<open>try\<close> block runs,
  and the \<open>catch\<close> clause adds its own error to whatever \<open>result\<close> holds by then. The
  parameter default \<open>options = defaultOptions\<close> serves a caller that passes no options;
  \<open>main\<close> always passes them.
\<close>

definition checkDependencies :: "runtime \<Rightarrow> string \<Rightarrow> CheckOptions \<Rightarrow> Result" where
  "checkDependencies rt packageJsonPath options =
     (case try_block rt packageJsonPath options \<lparr> success = True, errors = [] \<rparr> of
        (result, None) \<Rightarrow> result
      | (result, Some message) \<Rightarrow> fail_with (msg_read_or_parse message) result)"

section \<open>The options \<open>main\<close> assembles\<close>

text \<open>
  \<open>process.env\<close> maps a variable's name to its value; an unset variable is \<open>None\<close>.
  \<open>peerDepsAsterisk\<close> is \<open>process.env.INPUT_PEER_DEPS_SHOULD_BE_ASTERISK === "true" ||
  defaultOptions.peer_deps_should_be_asterisk\<close>.
\<close>

definition main_peerDepsAsterisk :: "(string \<rightharpoonup> string) \<Rightarrow> bool" where
  "main_peerDepsAsterisk env =
     (env ''INPUT_PEER_DEPS_SHOULD_BE_ASTERISK'' = Some ''true'' \<or>
      peer_deps_should_be_asterisk defaultOptions)"

section \<open>Violations\<close>

text \<open>Message \<open>m\<close> is a violation reported for package \<open>dep\<close>, under one of the four rules.\<close>

definition violation_for :: "string \<Rightarrow> string \<Rightarrow> bool" where
  "violation_for dep m =
     (m = msg_internal_dependency dep \<or> m = msg_peer_asterisk dep \<or>
      m = msg_bundled_dependency dep \<or> m = msg_bundled_peer dep)"

section \<open>Hosts and manifests for the examples\<close>

text \<open>
  A host given by two tables: the files that exist, by path, and what \<open>JSON.parse\<close>
  returns on a text. A missing file and a text outside the table make the call throw.
\<close>

definition example_host :: "(string \<times> string) list \<Rightarrow> (string \<times> json) list \<Rightarrow> runtime" where
  "example_host files parses =
     \<lparr> readFileSync = (\<lambda>path. case map_of files path of
           None \<Rightarrow> Inl (''ENOENT: no such file or directory, open '' @ path)
         | Some content \<Rightarrow> Inr content),
       JSON_parse = (\<lambda>content. case map_of parses content of
           None \<Rightarrow> Inl ''JSON Parse error: Unable to parse JSON string''
         | Some v \<Rightarrow> Inr v),
       destructure_null_message = ''Right side of assignment cannot be destructured'',
       entries_null_message =
         ''Object.entries requires that input parameter not be null or undefined'' \<rparr>"

definition text_mixed :: string where
  "text_mixed =
     ''{\"dependencies\":{\"left-pad\":\"1.3.0\",\"@tscircuit/core\":\"1.0.0\",\"circuit-utils\":\"2.0.0\"},'' @
     ''\"peerDependencies\":{\"schematic-symbols\":\"^1.0.0\",\"@tscircuit/props\":\"*\",\"react\":\"^18\"},'' @
     ''\"devDependencies\":{\"circuit-json\":\"0.1.0\"}}''"

definition manifest_mixed :: json where
  "manifest_mixed =
     JObj [(''dependencies'',
              JObj [(''left-pad'', JStr ''1.3.0''), (''@tscircuit/core'', JStr ''1.0.0''),
                    (''circuit-utils'', JStr ''2.0.0'')]),
           (''peerDependencies'',
              JObj [(''schematic-symbols'', JStr ''^1.0.0''), (''@tscircuit/props'', JStr ''*''),
                    (''react'', JStr ''^18'')]),
           (''devDependencies'', JObj [(''circuit-json'', JStr ''0.1.0'')])]"

definition text_no_dev :: string where
  "text_no_dev =
     ''{\"dependencies\":{\"left-pad\":\"1.3.0\",\"@tscircuit/core\":\"1.0.0\",\"circuit-utils\":\"2.0.0\"},'' @
     ''\"peerDependencies\":{\"schematic-symbols\":\"^1.0.0\",\"@tscircuit/props\":\"*\",\"react\":\"^18\"}}''"

definition manifest_no_dev :: json where
  "manifest_no_dev =
     JObj [(''dependencies'',
              JObj [(''left-pad'', JStr ''1.3.0''), (''@tscircuit/core'', JStr ''1.0.0''),
                    (''circuit-utils'', JStr ''2.0.0'')]),
           (''peerDependencies'',
              JObj [(''schematic-symbols'', JStr ''^1.0.0''), (''@tscircuit/props'', JStr ''*''),
                    (''react'', JStr ''^18'')])]"

text \<open>A manifest that declares two packages named by integers after another package.\<close>

definition text_numeric :: string where
  "text_numeric = ''{\"dependencies\":{\"circuit-z\":\"1.0.0\",\"2\":\"2.0.0\",\"1\":\"3.0.0\"}}''"

definition manifest_numeric :: json where
  "manifest_numeric =
     JObj [(''dependencies'',
              JObj [(''circuit-z'', JStr ''1.0.0''), (''2'', JStr ''2.0.0''),
                    (''1'', JStr ''3.0.0'')])]"

text \<open>
  The example host: \<open>/w/package.json\<close> holds \<open>text_mixed\<close>, \<open>/v/package.json\<close> holds
  \<open>text_no_dev\<close>, \<open>/n/package.json\<close> holds \<open>text_numeric\<close>, \<open>/bad/package.json\<close> holds text
  that is not JSON, and nothing else exists.
\<close>

definition host :: runtime where
  "host =
     example_host
       [(''/w/package.json'', text_mixed), (''/v/package.json'', text_no_dev),
        (''/n/package.json'', text_numeric), (''/bad/package.json'', ''{\"dependencies\":'')]
       [(text_mixed, manifest_mixed), (text_no_dev, manifest_no_dev),
        (text_numeric, manifest_numeric)]"

text \<open>Options that declare the packages \<open>1\<close> and \<open>2\<close> internal.\<close>

definition options_numeric :: CheckOptions where
  "options_numeric =
     \<lparr> package_type = ''internal_lib'', peer_deps_should_be_asterisk = True,
       additional_internal_modules = Some [''1'', ''2''], ignore_packages = Some [] \<rparr>"

definition options_of :: "string \<Rightarrow> string list \<Rightarrow> CheckOptions" where
  "options_of ty ignore =
     \<lparr> package_type = ty, peer_deps_should_be_asterisk = True,
       additional_internal_modules = Some [], ignore_packages = Some ignore \<rparr>"

section \<open>Facts about the string operations\<close>

lemma startsWith_iff: "startsWith s p \<longleftrightarrow> (\<exists>r. s = p @ r)"
  by (induction s p rule: startsWith.induct) auto

lemma includes_str_skip: "includes_str cs sub \<Longrightarrow> includes_str (a @ cs) sub"
  by (induction a) auto

lemma includes_str_appendI: "includes_str (a @ sub @ b) sub"
proof -
  have "startsWith (sub @ b) sub" by (simp add: startsWith_iff)
  then have "includes_str (sub @ b) sub" by (cases "sub @ b") auto
  then show ?thesis by (rule includes_str_skip)
qed

lemma includes_strD: "includes_str s sub \<Longrightarrow> \<exists>a b. s = a @ sub @ b"
proof (induction s)
  case Nil
  then show ?case by simp
next
  case (Cons c cs)
  from Cons.prems consider "startsWith (c # cs) sub" | "includes_str cs sub" by auto
  then show ?case
  proof cases
    case 1
    then obtain r where "c # cs = [] @ sub @ r" by (auto simp: startsWith_iff)
    then show ?thesis by blast
  next
    case 2
    then obtain a b where "cs = a @ sub @ b" using Cons.IH by blast
    then have "c # cs = (c # a) @ sub @ b" by simp
    then show ?thesis by blast
  qed
qed

lemma includes_str_iff: "includes_str s sub \<longleftrightarrow> (\<exists>a b. s = a @ sub @ b)"
  using includes_strD includes_str_appendI by blast

lemma toLowerCase_append: "toLowerCase (a @ b) = toLowerCase a @ toLowerCase b"
  by (simp add: toLowerCase_def)

lemma toLowerCase_prefix: "toLowerCase ''@tscircuit/'' = ''@tscircuit/''"
  by code_simp

lemma prefix_has_circuit:
  assumes "startsWith n ''@tscircuit/''"
  shows "includes_str (toLowerCase n) ''circuit''"
proof -
  from assms obtain r where n: "n = ''@tscircuit/'' @ r"
    unfolding startsWith_iff by blast
  have "toLowerCase n = toLowerCase ''@tscircuit/'' @ toLowerCase r"
    unfolding n by (rule toLowerCase_append)
  also have "\<dots> = ''@tscircuit/'' @ toLowerCase r"
    by (simp only: toLowerCase_prefix)
  also have "\<dots> = ''@ts'' @ ''circuit'' @ (''/'' @ toLowerCase r)"
    by simp
  finally show ?thesis by (simp only: includes_str_appendI)
qed

section \<open>The classifier\<close>

text \<open>
  C10. A name that starts with \<open>@tscircuit/\<close> contains \<open>circuit\<close> once lowercased, so the
  prefix check is subsumed by the substring check: taking it out of \<open>isInternalModule\<close>
  changes the result on no input.
\<close>

theorem prefix_check_subsumed:
  "(startsWith n ''@tscircuit/'' \<longrightarrow> includes_str (toLowerCase n) ''circuit'') \<and>
   isInternalModule n extra = isInternalModule_without_prefix_check n extra"
  using prefix_has_circuit [of n]
  by (auto simp: isInternalModule_def isInternalModule_without_prefix_check_def)

theorem prefix_check_subsumed_witness:
  "startsWith ''@tscircuit/core'' ''@tscircuit/'' \<and>
   includes_str (toLowerCase ''@tscircuit/core'') ''circuit'' \<and>
   isInternalModule ''@tscircuit/core'' None \<and>
   isInternalModule_without_prefix_check ''@tscircuit/core'' None"
proof -
  have p: "startsWith ''@tscircuit/core'' ''@tscircuit/''" by simp
  have i: "isInternalModule ''@tscircuit/core'' None"
    by (simp add: isInternalModule_def)
  from p i prefix_check_subsumed [of "''@tscircuit/core''" None] show ?thesis by simp
qed

text \<open>
  C2, as stated: \<open>isInternalModule n\<close> holds exactly when the lowercased \<open>n\<close> contains
  \<open>circuit\<close>. The built-in list refutes it: \<open>schematic-symbols\<close> is internal and does not
  contain \<open>circuit\<close>.
\<close>

theorem isInternalModule_only_circuit_counterexample:
  "isInternalModule ''schematic-symbols'' (Some []) \<and>
   \<not> includes_str (toLowerCase ''schematic-symbols'') ''circuit''"
  by code_simp

text \<open>
  C2, amended: \<open>isInternalModule n extra\<close> holds exactly when the lowercased \<open>n\<close> contains
  \<open>circuit\<close>, or \<open>n\<close> is in the built-in list, or \<open>n\<close> is in \<open>extra\<close>. In particular
  \<open>MyCircuitLib\<close> is internal whatever \<open>extra\<close> is, and \<open>unrelated-pkg\<close> is internal exactly
  when \<open>extra\<close> lists it.
\<close>

theorem isInternalModule_characterised:
  "isInternalModule n extra =
     (includes_str (toLowerCase n) ''circuit'' \<or> includes_arr INTERNAL_PACKAGE_LIST n \<or>
      includes_arr (orEmptyArray extra) n) \<and>
   isInternalModule ''MyCircuitLib'' extra \<and>
   isInternalModule ''unrelated-pkg'' extra = includes_arr (orEmptyArray extra) ''unrelated-pkg''"
proof -
  have a: "isInternalModule m extra =
     (includes_str (toLowerCase m) ''circuit'' \<or> includes_arr INTERNAL_PACKAGE_LIST m \<or>
      includes_arr (orEmptyArray extra) m)" for m
    using prefix_has_circuit [of m] by (auto simp: isInternalModule_def)
  have b: "includes_str (toLowerCase ''MyCircuitLib'') ''circuit''" by code_simp
  have c: "\<not> includes_str (toLowerCase ''unrelated-pkg'') ''circuit''" by code_simp
  have d: "\<not> includes_arr INTERNAL_PACKAGE_LIST ''unrelated-pkg''" by code_simp
  show ?thesis using a b c d by simp
qed

section \<open>The flag \<open>main\<close> computes\<close>

text \<open>
  C1. With \<open>INPUT_PEER_DEPS_SHOULD_BE_ASTERISK\<close> set to \<open>false\<close>, the flag \<open>main\<close> passes on
  is still true: the comparison with \<open>"true"\<close> is or-ed with the default, which is true.
\<close>

theorem main_peerDepsAsterisk_false_input:
  "main_peerDepsAsterisk [''INPUT_PEER_DEPS_SHOULD_BE_ASTERISK'' \<mapsto> ''false''] = True"
  by (simp add: main_peerDepsAsterisk_def defaultOptions_def)

section \<open>The loops\<close>

lemma errors_fail_with: "errors (fail_with m r) = errors r @ [m]"
  by (simp add: fail_with_def)

lemma success_fail_with: "success (fail_with m r) = False"
  by (simp add: fail_with_def)

text \<open>
  A loop whose body pushes \<open>m e\<close> for the entries \<open>e\<close> that satisfy \<open>P\<close> appends the messages
  of those entries, in the order of the entries.
\<close>

lemma run_loop_errors:
  assumes body: "\<And>e r. body e r = (if P e then fail_with (m e) r else r)"
  shows "errors (run_loop body es r) = errors r @ map m (filter P es)"
proof (induction es arbitrary: r)
  case Nil
  show ?case by simp
next
  case (Cons e es)
  have step: "body e r = (if P e then fail_with (m e) r else r)" by (rule body)
  show ?case
  proof (cases "P e")
    case True
    with step have "run_loop body (e # es) r = run_loop body es (fail_with (m e) r)" by simp
    with True show ?thesis by (simp add: Cons.IH errors_fail_with)
  next
    case False
    with step have "run_loop body (e # es) r = run_loop body es r" by simp
    with False show ?thesis by (simp add: Cons.IH)
  qed
qed

lemma run_loop_success:
  assumes body: "\<And>e r. body e r = (if P e then fail_with (m e) r else r)"
  shows "success (run_loop body es r) = (success r \<and> filter P es = [])"
proof (induction es arbitrary: r)
  case Nil
  show ?case by simp
next
  case (Cons e es)
  have step: "body e r = (if P e then fail_with (m e) r else r)" by (rule body)
  show ?case
  proof (cases "P e")
    case True
    with step have "run_loop body (e # es) r = run_loop body es (fail_with (m e) r)" by simp
    with True show ?thesis by (simp add: Cons.IH success_fail_with)
  next
    case False
    with step have "run_loop body (e # es) r = run_loop body es r" by simp
    with False show ?thesis by (simp add: Cons.IH)
  qed
qed

lemma Result_eqI: "success a = success b \<Longrightarrow> errors a = errors b \<Longrightarrow> a = (b :: Result)"
  by simp

lemma run_loop_start:
  assumes body: "\<And>e r. body e r = (if P e then fail_with (m e) r else r)"
  shows "run_loop body es \<lparr> success = s, errors = xs \<rparr> =
           \<lparr> success = (s \<and> filter P es = []), errors = xs @ map m (filter P es) \<rparr>"
  by (rule Result_eqI) (simp_all add: run_loop_errors [OF body] run_loop_success [OF body])

lemma run_loop_consistent:
  assumes body: "\<And>e r. body e r = (if P e then fail_with (m e) r else r)"
    and r: "success r = (errors r = [])"
  shows "success (run_loop body es r) = (errors (run_loop body es r) = [])"
  using r by (simp add: run_loop_errors [OF body] run_loop_success [OF body])

lemma internal_dependency_step_eq:
  "internal_dependency_step options e r =
     (if (case e of (dep, version) \<Rightarrow>
            isInternalModule dep (additional_internal_modules options) \<and> \<not> ignored options dep)
      then fail_with ((msg_internal_dependency \<circ> fst) e) r else r)"
  by (cases e) (simp add: internal_dependency_step_def)

lemma peer_asterisk_step_eq:
  "peer_asterisk_step options e r =
     (if (case e of (dep, version) \<Rightarrow>
            isInternalModule dep (additional_internal_modules options) \<and>
            version \<noteq> JStr ''*'' \<and> \<not> ignored options dep)
      then fail_with ((msg_peer_asterisk \<circ> fst) e) r else r)"
  by (cases e) (simp add: peer_asterisk_step_def)

lemma bundled_dependency_step_eq:
  "bundled_dependency_step options e r =
     (if (case e of (dep, version) \<Rightarrow>
            isInternalModule dep (additional_internal_modules options) \<and> \<not> ignored options dep)
      then fail_with ((msg_bundled_dependency \<circ> fst) e) r else r)"
  by (cases e) (simp add: bundled_dependency_step_def)

lemma bundled_peer_step_eq:
  "bundled_peer_step options e r =
     (if (case e of (dep, version) \<Rightarrow>
            isInternalModule dep (additional_internal_modules options) \<and> \<not> ignored options dep)
      then fail_with ((msg_bundled_peer \<circ> fst) e) r else r)"
  by (cases e) (simp add: bundled_peer_step_def)

lemmas loop_internal_dependency =
  run_loop_start [of "internal_dependency_step options", OF internal_dependency_step_eq]
  for options

lemmas loop_peer_asterisk =
  run_loop_start [of "peer_asterisk_step options", OF peer_asterisk_step_eq]
  for options

lemmas loop_bundled_dependency =
  run_loop_start [of "bundled_dependency_step options", OF bundled_dependency_step_eq]
  for options

lemmas loop_bundled_peer =
  run_loop_start [of "bundled_peer_step options", OF bundled_peer_step_eq]
  for options

section \<open>The \<open>try\<close> block\<close>

text \<open>What the \<open>try\<close> block does once the file is read and parsed to a value other than \<open>null\<close>.\<close>

lemma try_block_well_formed:
  assumes read: "readFileSync rt path = Inr content"
    and parse: "JSON_parse rt content = Inr packageJson"
    and nn: "packageJson \<noteq> JNull"
  shows "try_block rt path options r =
     (if package_type options = ''internal_lib'' then
        (case for_entries rt (orEmptyObject (getProp packageJson ''dependencies''))
                (internal_dependency_step options) r of
           (r1, Some message) \<Rightarrow> (r1, Some message)
         | (r1, None) \<Rightarrow>
             if peer_deps_should_be_asterisk options
             then for_entries rt (orEmptyObject (getProp packageJson ''peerDependencies''))
                    (peer_asterisk_step options) r1
             else (r1, None))
      else if package_type options = ''bundled_lib'' then
        (case for_entries rt (orEmptyObject (getProp packageJson ''dependencies''))
                (bundled_dependency_step options) r of
           (r1, Some message) \<Rightarrow> (r1, Some message)
         | (r1, None) \<Rightarrow>
             for_entries rt (orEmptyObject (getProp packageJson ''peerDependencies''))
               (bundled_peer_step options) r1)
      else (r, None))"
  by (simp add: try_block_def read parse destructure_def nn)

text \<open>
  An exception can end the block after errors were pushed: under \<open>bundled_lib\<close>, with
  \<open>peerDependencies\<close> set to \<open>null\<close>, the violations of \<open>dependencies\<close> are followed by the
  error of the \<open>catch\<close> clause.
\<close>

lemma bundled_null_peerDependencies:
  assumes read: "readFileSync rt path = Inr content"
    and parse: "JSON_parse rt content = Inr packageJson"
    and nn: "packageJson \<noteq> JNull"
    and deps: "Object_entries rt (orEmptyObject (getProp packageJson ''dependencies'')) = Inr deps"
    and peers: "getProp packageJson ''peerDependencies'' = Some JNull"
    and ty: "package_type options = ''bundled_lib''"
  shows "errors (checkDependencies rt path options) =
     map (msg_bundled_dependency \<circ> fst)
       (filter (\<lambda>(dep, version).
          isInternalModule dep (additional_internal_modules options) \<and> \<not> ignored options dep)
          deps) @
     [msg_read_or_parse (entries_null_message rt)]"
proof -
  have null: "orEmptyObject (getProp packageJson ''peerDependencies'') = JNull"
    by (simp add: peers orEmptyObject_def)
  show ?thesis
    by (simp add: checkDependencies_def try_block_well_formed [OF read parse nn] ty
        for_entries_def deps null loop_bundled_dependency errors_fail_with)
qed

text \<open>A property of \<open>result\<close> that the four loops keep holds when the \<open>try\<close> block ends.\<close>

lemma try_block_invariant:
  assumes r: "I r"
    and a: "\<And>es r. I r \<Longrightarrow> I (run_loop (internal_dependency_step options) es r)"
    and b: "\<And>es r. I r \<Longrightarrow> I (run_loop (peer_asterisk_step options) es r)"
    and c: "\<And>es r. I r \<Longrightarrow> I (run_loop (bundled_dependency_step options) es r)"
    and d: "\<And>es r. I r \<Longrightarrow> I (run_loop (bundled_peer_step options) es r)"
  shows "I (fst (try_block rt path options r))"
  using r a b c d
  by (auto simp: try_block_def for_entries_def
      split: sum.splits prod.splits option.splits if_splits)

section \<open>Results\<close>

text \<open>
  C5. Whatever the host, the path and the options, the result has \<open>success = true\<close> exactly
  when its list of errors is empty.
\<close>

theorem success_iff_no_errors:
  "success (checkDependencies rt path options) = (errors (checkDependencies rt path options) = [])"
proof -
  let ?start = "\<lparr> success = True, errors = [] \<rparr>"
  obtain r thrown where tb: "try_block rt path options ?start = (r, thrown)"
    by (cases "try_block rt path options ?start")
  have "success (fst (try_block rt path options ?start)) =
        (errors (fst (try_block rt path options ?start)) = [])"
    by (rule try_block_invariant [where I = "\<lambda>r. success r = (errors r = [])"])
      (simp_all add: run_loop_consistent [OF internal_dependency_step_eq]
        run_loop_consistent [OF peer_asterisk_step_eq]
        run_loop_consistent [OF bundled_dependency_step_eq]
        run_loop_consistent [OF bundled_peer_step_eq])
  with tb have r: "success r = (errors r = [])" by simp
  show ?thesis
  proof (cases thrown)
    case None
    with tb r show ?thesis by (simp add: checkDependencies_def)
  next
    case (Some message)
    with tb show ?thesis
      by (simp add: checkDependencies_def errors_fail_with success_fail_with)
  qed
qed

section \<open>The messages are told apart\<close>

text \<open>Two lists with a common end: if \<open>a @ s = b @ t\<close>, then \<open>s\<close> and \<open>t\<close> end alike.\<close>

lemma same_tail:
  assumes eq: "a @ s = b @ t" and s: "k \<le> length s" and t: "k \<le> length t"
  shows "take k (rev s) = take k (rev t)"
proof -
  from eq have "rev (a @ s) = rev (b @ t)" by simp
  then have "take k (rev s @ rev a) = take k (rev t @ rev b)" by simp
  with s t show ?thesis by simp
qed

lemma msg_internal_dependency_inj:
  "msg_internal_dependency a = msg_internal_dependency b \<longleftrightarrow> a = b"
  by (simp add: msg_internal_dependency_def)

lemma msg_peer_asterisk_inj: "msg_peer_asterisk a = msg_peer_asterisk b \<longleftrightarrow> a = b"
  by (simp add: msg_peer_asterisk_def)

lemma msg_bundled_dependency_inj:
  "msg_bundled_dependency a = msg_bundled_dependency b \<longleftrightarrow> a = b"
  by (simp add: msg_bundled_dependency_def)

lemma msg_bundled_peer_inj: "msg_bundled_peer a = msg_bundled_peer b \<longleftrightarrow> a = b"
  by (simp add: msg_bundled_peer_def)

lemma internal_dependency_neq_peer_asterisk:
  "msg_internal_dependency a \<noteq> msg_peer_asterisk b"
proof
  assume "msg_internal_dependency a = msg_peer_asterisk b"
  then have "a @ ''\" found in dependencies. It should be in peerDependencies or devDependencies.'' =
             b @ ''\" in peerDependencies should use \"*\" as version.''"
    by (simp add: msg_internal_dependency_def msg_peer_asterisk_def)
  from same_tail [OF this, of 2] show False by simp
qed

lemma internal_dependency_neq_bundled_dependency:
  "msg_internal_dependency a \<noteq> msg_bundled_dependency b"
proof
  assume "msg_internal_dependency a = msg_bundled_dependency b"
  then have "a @ ''\" found in dependencies. It should be in peerDependencies or devDependencies.'' =
             b @ ''\" found in dependencies. Bundled libs cannot have internal dependencies.''"
    by (simp add: msg_internal_dependency_def msg_bundled_dependency_def)
  from same_tail [OF this, of 13] show False by simp
qed

lemma internal_dependency_neq_bundled_peer:
  "msg_internal_dependency a \<noteq> msg_bundled_peer b"
proof
  assume "msg_internal_dependency a = msg_bundled_peer b"
  then have "a @ ''\" found in dependencies. It should be in peerDependencies or devDependencies.'' =
             b @ ''\" found in peerDependencies. Bundled libs cannot have internal peer dependencies.''"
    by (simp add: msg_internal_dependency_def msg_bundled_peer_def)
  from same_tail [OF this, of 13] show False by simp
qed

lemma peer_asterisk_neq_bundled_dependency:
  "msg_peer_asterisk a \<noteq> msg_bundled_dependency b"
proof
  assume "msg_peer_asterisk a = msg_bundled_dependency b"
  then have "a @ ''\" in peerDependencies should use \"*\" as version.'' =
             b @ ''\" found in dependencies. Bundled libs cannot have internal dependencies.''"
    by (simp add: msg_peer_asterisk_def msg_bundled_dependency_def)
  from same_tail [OF this, of 2] show False by simp
qed

lemma peer_asterisk_neq_bundled_peer:
  "msg_peer_asterisk a \<noteq> msg_bundled_peer b"
proof
  assume "msg_peer_asterisk a = msg_bundled_peer b"
  then have "a @ ''\" in peerDependencies should use \"*\" as version.'' =
             b @ ''\" found in peerDependencies. Bundled libs cannot have internal peer dependencies.''"
    by (simp add: msg_peer_asterisk_def msg_bundled_peer_def)
  from same_tail [OF this, of 2] show False by simp
qed

lemma bundled_dependency_neq_bundled_peer:
  "msg_bundled_dependency a \<noteq> msg_bundled_peer b"
proof
  assume "msg_bundled_dependency a = msg_bundled_peer b"
  then have "a @ ''\" found in dependencies. Bundled libs cannot have internal dependencies.'' =
             b @ ''\" found in peerDependencies. Bundled libs cannot have internal peer dependencies.''"
    by (simp add: msg_bundled_dependency_def msg_bundled_peer_def)
  from same_tail [OF this, of 15] show False by simp
qed

lemma read_or_parse_not_violation: "\<not> violation_for dep (msg_read_or_parse message)"
  by (simp add: violation_for_def msg_read_or_parse_def msg_internal_dependency_def
      msg_peer_asterisk_def msg_bundled_dependency_def msg_bundled_peer_def)

lemmas msg_distinct =
  internal_dependency_neq_peer_asterisk internal_dependency_neq_bundled_dependency
  internal_dependency_neq_bundled_peer peer_asterisk_neq_bundled_dependency
  peer_asterisk_neq_bundled_peer bundled_dependency_neq_bundled_peer
  internal_dependency_neq_peer_asterisk [symmetric]
  internal_dependency_neq_bundled_dependency [symmetric]
  internal_dependency_neq_bundled_peer [symmetric]
  peer_asterisk_neq_bundled_dependency [symmetric]
  peer_asterisk_neq_bundled_peer [symmetric]
  bundled_dependency_neq_bundled_peer [symmetric]

lemmas msg_inj =
  msg_internal_dependency_inj msg_peer_asterisk_inj msg_bundled_dependency_inj
  msg_bundled_peer_inj

lemma violation_for_other:
  "violation_for dep (msg_internal_dependency d) \<longleftrightarrow> d = dep"
  "violation_for dep (msg_peer_asterisk d) \<longleftrightarrow> d = dep"
  "violation_for dep (msg_bundled_dependency d) \<longleftrightarrow> d = dep"
  "violation_for dep (msg_bundled_peer d) \<longleftrightarrow> d = dep"
  by (simp_all add: violation_for_def msg_distinct msg_inj)

section \<open>Enumeration order\<close>

text \<open>An object none of whose keys is an array index is enumerated as it was created.\<close>

lemma ownEntries_no_index:
  assumes "list_all (\<lambda>(key, v). \<not> isArrayIndex key) kvs"
  shows "ownEntries kvs = kvs"
proof -
  from assms have none: "\<forall>e \<in> set kvs. \<not> (case e of (key, v) \<Rightarrow> isArrayIndex key)"
    by (auto simp: list_all_iff)
  then have "filter (\<lambda>(key, v). isArrayIndex key) kvs = []"
    by (simp add: filter_empty_conv)
  moreover from none have "filter (\<lambda>(key, v). \<not> isArrayIndex key) kvs = kvs"
    by (auto simp: filter_id_conv)
  ultimately show ?thesis by (simp add: ownEntries_def)
qed

section \<open>Manifests that are read without an exception\<close>

text \<open>
  When the file is read and parsed, the parsed value is not \<open>null\<close> and neither
  \<open>Object.entries\<close> call throws, the errors are the messages of the offending entries of
  \<open>dependencies\<close>, then those of \<open>peerDependencies\<close>.
\<close>

lemma errors_well_formed:
  assumes read: "readFileSync rt path = Inr content"
    and parse: "JSON_parse rt content = Inr packageJson"
    and nn: "packageJson \<noteq> JNull"
    and deps: "Object_entries rt (orEmptyObject (getProp packageJson ''dependencies'')) = Inr deps"
    and peers:
      "Object_entries rt (orEmptyObject (getProp packageJson ''peerDependencies'')) = Inr peers"
  shows "errors (checkDependencies rt path options) =
     (if package_type options = ''internal_lib'' then
        map (msg_internal_dependency \<circ> fst)
          (filter (\<lambda>(dep, version).
             isInternalModule dep (additional_internal_modules options) \<and> \<not> ignored options dep)
             deps) @
        (if peer_deps_should_be_asterisk options then
           map (msg_peer_asterisk \<circ> fst)
             (filter (\<lambda>(dep, version).
                isInternalModule dep (additional_internal_modules options) \<and>
                version \<noteq> JStr ''*'' \<and> \<not> ignored options dep) peers)
         else [])
      else if package_type options = ''bundled_lib'' then
        map (msg_bundled_dependency \<circ> fst)
          (filter (\<lambda>(dep, version).
             isInternalModule dep (additional_internal_modules options) \<and> \<not> ignored options dep)
             deps) @
        map (msg_bundled_peer \<circ> fst)
          (filter (\<lambda>(dep, version).
             isInternalModule dep (additional_internal_modules options) \<and> \<not> ignored options dep)
             peers)
      else [])"
  by (simp add: checkDependencies_def try_block_well_formed [OF read parse nn]
      for_entries_def deps peers loop_internal_dependency loop_peer_asterisk
      loop_bundled_dependency loop_bundled_peer)

lemma run_loop_keeps_silent:
  assumes body: "\<And>e r. body e r = (if P e then fail_with (m e) r else r)"
    and new: "\<And>e. P e \<Longrightarrow> \<not> violation_for dep (m e)"
    and r: "\<forall>x \<in> set (errors r). \<not> violation_for dep x"
  shows "\<forall>x \<in> set (errors (run_loop body es r)). \<not> violation_for dep x"
  using r new by (auto simp: run_loop_errors [OF body])

section \<open>The example host\<close>

lemma host_reads_mixed: "readFileSync host ''/w/package.json'' = Inr text_mixed"
  by (simp add: host_def example_host_def)

lemma host_reads_no_dev: "readFileSync host ''/v/package.json'' = Inr text_no_dev"
  by (simp add: host_def example_host_def)

lemma host_parses_mixed: "JSON_parse host text_mixed = Inr manifest_mixed"
  by (simp add: host_def example_host_def)

lemma host_parses_no_dev: "JSON_parse host text_no_dev = Inr manifest_no_dev"
  by code_simp

lemma manifest_mixed_not_null: "manifest_mixed \<noteq> JNull"
  by (simp add: manifest_mixed_def)

lemma manifest_no_dev_not_null: "manifest_no_dev \<noteq> JNull"
  by (simp add: manifest_no_dev_def)

lemma mixed_dependencies:
  "Object_entries host (orEmptyObject (getProp manifest_mixed ''dependencies'')) =
     Inr [(''left-pad'', JStr ''1.3.0''), (''@tscircuit/core'', JStr ''1.0.0''),
          (''circuit-utils'', JStr ''2.0.0'')]"
  by code_simp

lemma mixed_peerDependencies:
  "Object_entries host (orEmptyObject (getProp manifest_mixed ''peerDependencies'')) =
     Inr [(''schematic-symbols'', JStr ''^1.0.0''), (''@tscircuit/props'', JStr ''*''),
          (''react'', JStr ''^18'')]"
  by code_simp

lemma internal_examples:
  "isInternalModule ''left-pad'' (Some []) = False"
  "isInternalModule ''@tscircuit/core'' (Some []) = True"
  "isInternalModule ''circuit-utils'' (Some []) = True"
  "isInternalModule ''schematic-symbols'' (Some []) = True"
  "isInternalModule ''@tscircuit/props'' (Some []) = True"
  "isInternalModule ''react'' (Some []) = False"
  by code_simp+

lemma host_reads_numeric: "readFileSync host ''/n/package.json'' = Inr text_numeric"
  by (simp add: host_def example_host_def)

lemma host_parses_numeric: "JSON_parse host text_numeric = Inr manifest_numeric"
  by code_simp

lemma manifest_numeric_not_null: "manifest_numeric \<noteq> JNull"
  by (simp add: manifest_numeric_def)

lemma numeric_dependencies:
  "Object_entries host (orEmptyObject (getProp manifest_numeric ''dependencies'')) =
     Inr [(''1'', JStr ''3.0.0''), (''2'', JStr ''2.0.0''), (''circuit-z'', JStr ''1.0.0'')]"
  by code_simp

lemma numeric_peerDependencies:
  "Object_entries host (orEmptyObject (getProp manifest_numeric ''peerDependencies'')) = Inr []"
  by code_simp

lemma numeric_internal:
  "isInternalModule ''1'' (Some [''1'', ''2'']) = True"
  "isInternalModule ''2'' (Some [''1'', ''2'']) = True"
  "isInternalModule ''circuit-z'' (Some [''1'', ''2'']) = True"
  by code_simp+

section \<open>Properties of \<open>checkDependencies\<close>\<close>

text \<open>
  C3. When \<open>package_type\<close> is neither \<open>internal_lib\<close> nor \<open>bundled_lib\<close>, every manifest (a
  file that is read and parsed to a value other than \<open>null\<close>) gives \<open>success = true\<close> and no
  error: no rule applies.
\<close>

theorem unknown_package_type_succeeds:
  assumes "package_type options \<noteq> ''internal_lib''"
    and "package_type options \<noteq> ''bundled_lib''"
    and "readFileSync rt path = Inr content"
    and "JSON_parse rt content = Inr packageJson"
    and "packageJson \<noteq> JNull"
  shows "checkDependencies rt path options = \<lparr> success = True, errors = [] \<rparr>"
  using assms(1,2)
  by (simp add: checkDependencies_def try_block_well_formed [OF assms(3,4,5)])

theorem unknown_package_type_succeeds_witness:
  "package_type (options_of ''application'' []) \<noteq> ''internal_lib'' \<and>
   package_type (options_of ''application'' []) \<noteq> ''bundled_lib'' \<and>
   checkDependencies host ''/w/package.json'' (options_of ''application'' []) =
     \<lparr> success = True, errors = [] \<rparr>"
proof -
  have a: "package_type (options_of ''application'' []) \<noteq> ''internal_lib''"
    by (simp add: options_of_def)
  have b: "package_type (options_of ''application'' []) \<noteq> ''bundled_lib''"
    by (simp add: options_of_def)
  from a b
    unknown_package_type_succeeds
      [OF a b host_reads_mixed host_parses_mixed manifest_mixed_not_null]
  show ?thesis by simp
qed

text \<open>
  C4. When reading the file throws, or \<open>JSON.parse\<close> throws on its contents, the result is
  \<open>success = false\<close> with exactly one error, the fixed prefix followed by the message of the
  exception; no rule has run.
\<close>

theorem read_or_parse_failure:
  assumes "readFileSync rt path = Inl message \<or>
           (readFileSync rt path = Inr content \<and> JSON_parse rt content = Inl message)"
  shows "checkDependencies rt path options =
           \<lparr> success = False,
             errors = [''Error reading or parsing package.json: '' @ message] \<rparr>"
  using assms
  by (auto simp: checkDependencies_def try_block_def fail_with_def msg_read_or_parse_def)

theorem read_or_parse_failure_witness:
  "checkDependencies host ''/none/package.json'' defaultOptions =
     \<lparr> success = False,
       errors = [''Error reading or parsing package.json: '' @
                 ''ENOENT: no such file or directory, open /none/package.json''] \<rparr> \<and>
   checkDependencies host ''/bad/package.json'' defaultOptions =
     \<lparr> success = False,
       errors = [''Error reading or parsing package.json: '' @
                 ''JSON Parse error: Unable to parse JSON string''] \<rparr>"
proof -
  have a: "readFileSync host ''/none/package.json'' =
             Inl ''ENOENT: no such file or directory, open /none/package.json''"
    by (simp add: host_def example_host_def)
  have b: "readFileSync host ''/bad/package.json'' = Inr ''{\"dependencies\":''"
    by (simp add: host_def example_host_def)
  have c: "JSON_parse host ''{\"dependencies\":'' =
             Inl ''JSON Parse error: Unable to parse JSON string''"
    by code_simp
  show ?thesis
    using read_or_parse_failure [OF disjI1, OF a]
      read_or_parse_failure [OF disjI2, OF conjI, OF b c]
    by (rule conjI)
qed

text \<open>
  C6. A package named in \<open>ignore_packages\<close> is never reported: no error of the result is
  one of the four violation messages for that package, whatever the package type.
\<close>

theorem ignored_package_never_reported:
  assumes ign: "ignore_packages options = Some l"
    and dep: "dep \<in> set l"
    and m: "m \<in> set (errors (checkDependencies rt path options))"
  shows "\<not> violation_for dep m"
proof -
  let ?start = "\<lparr> success = True, errors = [] \<rparr>"
  let ?I = "\<lambda>r :: Result. \<forall>x \<in> set (errors r). \<not> violation_for dep x"
  from ign dep have ignored: "ignored options dep"
    by (simp add: ignored_def includes_arr_def)
  obtain r thrown where tb: "try_block rt path options ?start = (r, thrown)"
    by (cases "try_block rt path options ?start")
  have "?I (fst (try_block rt path options ?start))"
  proof (rule try_block_invariant [where I = ?I])
    show "?I ?start" by simp
  next
    fix es and r0 :: Result assume "?I r0"
    then show "?I (run_loop (internal_dependency_step options) es r0)"
      by (rule run_loop_keeps_silent [OF internal_dependency_step_eq, rotated])
        (use ignored in \<open>auto simp: violation_for_other\<close>)
  next
    fix es and r0 :: Result assume "?I r0"
    then show "?I (run_loop (peer_asterisk_step options) es r0)"
      by (rule run_loop_keeps_silent [OF peer_asterisk_step_eq, rotated])
        (use ignored in \<open>auto simp: violation_for_other\<close>)
  next
    fix es and r0 :: Result assume "?I r0"
    then show "?I (run_loop (bundled_dependency_step options) es r0)"
      by (rule run_loop_keeps_silent [OF bundled_dependency_step_eq, rotated])
        (use ignored in \<open>auto simp: violation_for_other\<close>)
  next
    fix es and r0 :: Result assume "?I r0"
    then show "?I (run_loop (bundled_peer_step options) es r0)"
      by (rule run_loop_keeps_silent [OF bundled_peer_step_eq, rotated])
        (use ignored in \<open>auto simp: violation_for_other\<close>)
  qed
  with tb have r: "?I r" by simp
  have "?I (checkDependencies rt path options)"
  proof (cases thrown)
    case None
    with tb r show ?thesis by (simp add: checkDependencies_def)
  next
    case (Some message)
    with tb r show ?thesis
      by (simp add: checkDependencies_def errors_fail_with read_or_parse_not_violation)
  qed
  with m show ?thesis by blast
qed

theorem ignored_package_never_reported_witness:
  "ignore_packages (options_of ''internal_lib'' [''@tscircuit/core'']) =
     Some [''@tscircuit/core''] \<and>
   msg_internal_dependency ''circuit-utils'' \<in>
     set (errors (checkDependencies host ''/w/package.json''
            (options_of ''internal_lib'' [''@tscircuit/core'']))) \<and>
   \<not> violation_for ''@tscircuit/core'' (msg_internal_dependency ''circuit-utils'') \<and>
   msg_internal_dependency ''@tscircuit/core'' \<notin>
     set (errors (checkDependencies host ''/w/package.json''
            (options_of ''internal_lib'' [''@tscircuit/core''])))"
proof -
  let ?options = "options_of ''internal_lib'' [''@tscircuit/core'']"
  let ?errors = "errors (checkDependencies host ''/w/package.json'' ?options)"
  have ign: "ignore_packages ?options = Some [''@tscircuit/core'']"
    by (simp add: options_of_def)
  have dep: "''@tscircuit/core'' \<in> set [''@tscircuit/core'']"
    by simp
  have "?errors = [msg_internal_dependency ''circuit-utils'', msg_peer_asterisk ''schematic-symbols'']"
    unfolding errors_well_formed
      [OF host_reads_mixed host_parses_mixed manifest_mixed_not_null
          mixed_dependencies mixed_peerDependencies]
    by (simp add: options_of_def internal_examples ignored_def includes_arr_def)
  then have m: "msg_internal_dependency ''circuit-utils'' \<in> set ?errors"
    by simp
  have silent: "\<not> violation_for ''@tscircuit/core'' x" if "x \<in> set ?errors" for x
    using ign dep that by (rule ignored_package_never_reported)
  have own: "violation_for ''@tscircuit/core'' (msg_internal_dependency ''@tscircuit/core'')"
    by (simp add: violation_for_def)
  from silent [OF m] silent [of "msg_internal_dependency ''@tscircuit/core''"] own ign m
  show ?thesis by blast
qed

text \<open>
  C7. Under \<open>internal_lib\<close> with \<open>peer_deps_should_be_asterisk\<close> set, an entry of
  \<open>peerDependencies\<close> whose name is internal and not ignored is reported exactly when its
  version is not the string \<open>*\<close>. The keys of an object are distinct.
\<close>

theorem peer_asterisk_exact:
  assumes ty: "package_type options = ''internal_lib''"
    and flag: "peer_deps_should_be_asterisk options"
    and read: "readFileSync rt path = Inr content"
    and parse: "JSON_parse rt content = Inr packageJson"
    and nn: "packageJson \<noteq> JNull"
    and deps: "Object_entries rt (orEmptyObject (getProp packageJson ''dependencies'')) = Inr deps"
    and peers:
      "Object_entries rt (orEmptyObject (getProp packageJson ''peerDependencies'')) = Inr peers"
    and keys: "distinct (map fst peers)"
    and entry: "(dep, version) \<in> set peers"
    and internal: "isInternalModule dep (additional_internal_modules options)"
    and not_ignored: "\<not> ignored options dep"
  shows "msg_peer_asterisk dep \<in> set (errors (checkDependencies rt path options)) \<longleftrightarrow>
         version \<noteq> JStr ''*''"
proof -
  have only: "v = version" if "(dep, v) \<in> set peers" for v
    using keys that entry by (rule eq_key_imp_eq_value)
  have "msg_peer_asterisk dep \<in> set (errors (checkDependencies rt path options)) \<longleftrightarrow>
        (\<exists>v. (dep, v) \<in> set peers \<and> v \<noteq> JStr ''*'')"
    using internal not_ignored
    by (auto simp: errors_well_formed [OF read parse nn deps peers] ty flag
        msg_distinct msg_inj image_iff)
  also have "\<dots> \<longleftrightarrow> version \<noteq> JStr ''*''"
    using only entry by blast
  finally show ?thesis .
qed

theorem peer_asterisk_exact_witness:
  "msg_peer_asterisk ''schematic-symbols'' \<in>
     set (errors (checkDependencies host ''/w/package.json'' (options_of ''internal_lib'' []))) \<and>
   msg_peer_asterisk ''@tscircuit/props'' \<notin>
     set (errors (checkDependencies host ''/w/package.json'' (options_of ''internal_lib'' [])))"
proof -
  let ?options = "options_of ''internal_lib'' []"
  let ?peers = "[(''schematic-symbols'', JStr ''^1.0.0''), (''@tscircuit/props'', JStr ''*''),
                 (''react'', JStr ''^18'')]"
  have ty: "package_type ?options = ''internal_lib''"
    by (simp add: options_of_def)
  have flag: "peer_deps_should_be_asterisk ?options"
    by (simp add: options_of_def)
  have keys: "distinct (map fst ?peers)"
    by simp
  have e1: "(''schematic-symbols'', JStr ''^1.0.0'') \<in> set ?peers"
    by simp
  have e2: "(''@tscircuit/props'', JStr ''*'') \<in> set ?peers"
    by simp
  have i1: "isInternalModule ''schematic-symbols'' (additional_internal_modules ?options)"
    by (simp add: options_of_def internal_examples)
  have i2: "isInternalModule ''@tscircuit/props'' (additional_internal_modules ?options)"
    by (simp add: options_of_def internal_examples)
  have n: "\<not> ignored ?options d" for d
    by (simp add: options_of_def ignored_def includes_arr_def)
  note exact = peer_asterisk_exact
      [OF ty flag host_reads_mixed host_parses_mixed manifest_mixed_not_null
          mixed_dependencies mixed_peerDependencies keys]
  from exact [OF e1 i1 n] exact [OF e2 i2 n] show ?thesis by simp
qed

text \<open>
  C8, as stated: the errors follow the order in which the offending dependencies are
  declared in their sub-mapping. A manifest that declares \<open>circuit-z\<close>, \<open>2\<close>, \<open>1\<close> in this
  order, all three internal, refutes it: the errors name \<open>1\<close>, \<open>2\<close>, \<open>circuit-z\<close>.
\<close>

theorem declaration_order_counterexample:
  "getProp manifest_numeric ''dependencies'' =
     Some (JObj [(''circuit-z'', JStr ''1.0.0''), (''2'', JStr ''2.0.0''),
                 (''1'', JStr ''3.0.0'')]) \<and>
   errors (checkDependencies host ''/n/package.json'' options_numeric) =
     [msg_internal_dependency ''1'', msg_internal_dependency ''2'',
      msg_internal_dependency ''circuit-z''] \<and>
   errors (checkDependencies host ''/n/package.json'' options_numeric) \<noteq>
     [msg_internal_dependency ''circuit-z'', msg_internal_dependency ''2'',
      msg_internal_dependency ''1'']"
proof -
  have declared: "getProp manifest_numeric ''dependencies'' =
     Some (JObj [(''circuit-z'', JStr ''1.0.0''), (''2'', JStr ''2.0.0''),
                 (''1'', JStr ''3.0.0'')])"
    by (simp add: manifest_numeric_def)
  have reported: "errors (checkDependencies host ''/n/package.json'' options_numeric) =
     [msg_internal_dependency ''1'', msg_internal_dependency ''2'',
      msg_internal_dependency ''circuit-z'']"
    unfolding errors_well_formed
      [OF host_reads_numeric host_parses_numeric manifest_numeric_not_null
          numeric_dependencies numeric_peerDependencies]
    by (simp add: options_numeric_def numeric_internal ignored_def includes_arr_def)
  have "msg_internal_dependency ''1'' \<noteq> msg_internal_dependency ''circuit-z''"
    by (simp add: msg_internal_dependency_inj)
  with declared reported show ?thesis by simp
qed

text \<open>
  C8, amended: the errors are the violations of \<open>dependencies\<close> followed by the violations of
  \<open>peerDependencies\<close>, each in the order \<open>Object.entries\<close> enumerates the sub-mapping. For an
  object that order is: the entries whose name is an array index, by ascending index, then
  the other entries in the order they are declared. For an object with no such name it is
  the order of declaration.
\<close>

theorem errors_in_enumeration_order:
  assumes "readFileSync rt path = Inr content"
    and "JSON_parse rt content = Inr packageJson"
    and "packageJson \<noteq> JNull"
    and "Object_entries rt (orEmptyObject (getProp packageJson ''dependencies'')) = Inr deps"
    and "Object_entries rt (orEmptyObject (getProp packageJson ''peerDependencies'')) = Inr peers"
  shows "errors (checkDependencies rt path options) =
     (if package_type options = ''internal_lib'' then
        map (msg_internal_dependency \<circ> fst)
          (filter (\<lambda>(dep, version).
             isInternalModule dep (additional_internal_modules options) \<and> \<not> ignored options dep)
             deps) @
        (if peer_deps_should_be_asterisk options then
           map (msg_peer_asterisk \<circ> fst)
             (filter (\<lambda>(dep, version).
                isInternalModule dep (additional_internal_modules options) \<and>
                version \<noteq> JStr ''*'' \<and> \<not> ignored options dep) peers)
         else [])
      else if package_type options = ''bundled_lib'' then
        map (msg_bundled_dependency \<circ> fst)
          (filter (\<lambda>(dep, version).
             isInternalModule dep (additional_internal_modules options) \<and> \<not> ignored options dep)
             deps) @
        map (msg_bundled_peer \<circ> fst)
          (filter (\<lambda>(dep, version).
             isInternalModule dep (additional_internal_modules options) \<and> \<not> ignored options dep)
             peers)
      else []) \<and>
     Object_entries rt (JObj kvs) =
       Inr (sort_key (\<lambda>(key, v). indexValue key) (filter (\<lambda>(key, v). isArrayIndex key) kvs) @
            filter (\<lambda>(key, v). \<not> isArrayIndex key) kvs) \<and>
     (list_all (\<lambda>(key, v). \<not> isArrayIndex key) kvs \<longrightarrow> Object_entries rt (JObj kvs) = Inr kvs)"
  using errors_well_formed [OF assms, of options] ownEntries_no_index [of kvs]
  by (simp add: ownEntries_def)

theorem errors_in_enumeration_order_witness:
  "errors (checkDependencies host ''/w/package.json'' (options_of ''internal_lib'' [])) =
     [msg_internal_dependency ''@tscircuit/core'', msg_internal_dependency ''circuit-utils'',
      msg_peer_asterisk ''schematic-symbols''] \<and>
   errors (checkDependencies host ''/w/package.json'' (options_of ''bundled_lib'' [])) =
     [msg_bundled_dependency ''@tscircuit/core'', msg_bundled_dependency ''circuit-utils'',
      msg_bundled_peer ''schematic-symbols'', msg_bundled_peer ''@tscircuit/props''] \<and>
   Object_entries host
     (JObj [(''left-pad'', JStr ''1.3.0''), (''@tscircuit/core'', JStr ''1.0.0''),
            (''circuit-utils'', JStr ''2.0.0'')]) =
     Inr [(''left-pad'', JStr ''1.3.0''), (''@tscircuit/core'', JStr ''1.0.0''),
          (''circuit-utils'', JStr ''2.0.0'')] \<and>
   errors (checkDependencies host ''/n/package.json'' options_numeric) =
     [msg_internal_dependency ''1'', msg_internal_dependency ''2'',
      msg_internal_dependency ''circuit-z'']"
proof -
  let ?kvs = "[(''left-pad'', JStr ''1.3.0''), (''@tscircuit/core'', JStr ''1.0.0''),
               (''circuit-utils'', JStr ''2.0.0'')]"
  note mixed = errors_in_enumeration_order
      [OF host_reads_mixed host_parses_mixed manifest_mixed_not_null
          mixed_dependencies mixed_peerDependencies]
  note numeric = errors_in_enumeration_order
      [OF host_reads_numeric host_parses_numeric manifest_numeric_not_null
          numeric_dependencies numeric_peerDependencies]
  have a: "errors (checkDependencies host ''/w/package.json'' (options_of ''internal_lib'' [])) =
     [msg_internal_dependency ''@tscircuit/core'', msg_internal_dependency ''circuit-utils'',
      msg_peer_asterisk ''schematic-symbols'']"
    unfolding mixed [of "options_of ''internal_lib'' []" "[]", THEN conjunct1]
    by (simp add: options_of_def internal_examples ignored_def includes_arr_def)
  have b: "errors (checkDependencies host ''/w/package.json'' (options_of ''bundled_lib'' [])) =
     [msg_bundled_dependency ''@tscircuit/core'', msg_bundled_dependency ''circuit-utils'',
      msg_bundled_peer ''schematic-symbols'', msg_bundled_peer ''@tscircuit/props'']"
    unfolding mixed [of "options_of ''bundled_lib'' []" "[]", THEN conjunct1]
    by (simp add: options_of_def internal_examples ignored_def includes_arr_def)
  have names: "list_all (\<lambda>(key, v). \<not> isArrayIndex key) ?kvs"
    by code_simp
  have c: "Object_entries host (JObj ?kvs) = Inr ?kvs"
    using mixed [of "options_of ''internal_lib'' []" ?kvs, THEN conjunct2, THEN conjunct2] names
    by (rule mp)
  have d: "errors (checkDependencies host ''/n/package.json'' options_numeric) =
     [msg_internal_dependency ''1'', msg_internal_dependency ''2'',
      msg_internal_dependency ''circuit-z'']"
    unfolding numeric [of options_numeric "[]", THEN conjunct1]
    by (simp add: options_numeric_def numeric_internal ignored_def includes_arr_def)
  from a b c d show ?thesis by simp
qed

text \<open>
  C9. Two manifests with the same \<open>dependencies\<close> and the same \<open>peerDependencies\<close> give the same
  result under every configuration: \<open>devDependencies\<close> is read and never checked.
\<close>

theorem devDependencies_ignored:
  assumes "readFileSync rt path1 = Inr content1"
    and "JSON_parse rt content1 = Inr packageJson1"
    and "packageJson1 \<noteq> JNull"
    and "readFileSync rt path2 = Inr content2"
    and "JSON_parse rt content2 = Inr packageJson2"
    and "packageJson2 \<noteq> JNull"
    and "getProp packageJson1 ''dependencies'' = getProp packageJson2 ''dependencies''"
    and "getProp packageJson1 ''peerDependencies'' = getProp packageJson2 ''peerDependencies''"
  shows "checkDependencies rt path1 options = checkDependencies rt path2 options"
proof -
  have "try_block rt path1 options r = try_block rt path2 options r" for r
    unfolding try_block_well_formed [OF assms(1,2,3)] try_block_well_formed [OF assms(4,5,6)]
      assms(7,8) ..
  then show ?thesis by (simp add: checkDependencies_def)
qed

theorem devDependencies_ignored_witness:
  "getProp manifest_mixed ''devDependencies'' = Some (JObj [(''circuit-json'', JStr ''0.1.0'')]) \<and>
   getProp manifest_no_dev ''devDependencies'' = None \<and>
   checkDependencies host ''/w/package.json'' (options_of ''bundled_lib'' []) =
   checkDependencies host ''/v/package.json'' (options_of ''bundled_lib'' [])"
proof -
  have d: "getProp manifest_mixed ''dependencies'' = getProp manifest_no_dev ''dependencies''"
    by (simp add: manifest_mixed_def manifest_no_dev_def)
  have p: "getProp manifest_mixed ''peerDependencies'' =
           getProp manifest_no_dev ''peerDependencies''"
    by (simp add: manifest_mixed_def manifest_no_dev_def)
  have v1: "getProp manifest_mixed ''devDependencies'' =
            Some (JObj [(''circuit-json'', JStr ''0.1.0'')])"
    by (simp add: manifest_mixed_def)
  have v2: "getProp manifest_no_dev ''devDependencies'' = None"
    by (simp add: manifest_no_dev_def)
  from v1 v2
    devDependencies_ignored
      [OF host_reads_mixed host_parses_mixed manifest_mixed_not_null
          host_reads_no_dev host_parses_no_dev manifest_no_dev_not_null d p]
  show ?thesis by blast
qed

end
